theory Spec2Isabelle
  imports Main "HOL-Library.Word"
begin

section \<open>Python values used by the \<open>mine\<close> command\<close>

text \<open>
  The development embeds the \<open>mine\<close> command of \<open>createx/__main__.py\<close>. Python
  \<open>str\<close> values are \<open>string\<close>s, \<open>bytes\<close> values are lists of 8-bit words, Python
  integers are \<open>int\<close>, an optional command-line option is an \<open>option\<close>, and every
  exception the command can raise is a value of \<open>error\<close>, returned on the left of a sum.
\<close>

type_synonym byte = "8 word"
type_synonym bytes = "byte list"

datatype error =
    BadOptionUsage string string  \<comment> \<open>\<open>click.BadOptionUsage(option_name, message)\<close>\<close>
  | UsageError string             \<comment> \<open>\<open>click.UsageError(message)\<close>\<close>
  | ValueError
  | TypeError
  | NameError

text \<open>Slices \<open>xs[:stop]\<close> and \<open>xs[start:]\<close>: a negative bound counts from the end and
  is clipped at the front of the sequence; \<open>xs[:None]\<close> is the whole sequence.\<close>

definition slice_upto :: "'a list \<Rightarrow> int option \<Rightarrow> 'a list" where
  "slice_upto xs stop =
     (case stop of
        None \<Rightarrow> xs
      | Some i \<Rightarrow> if i < 0 then take (nat (int (length xs) + i)) xs else take (nat i) xs)"

definition slice_from :: "'a list \<Rightarrow> int \<Rightarrow> 'a list" where
  "slice_from xs i =
     (if i < 0 then drop (nat (int (length xs) + i)) xs else drop (nat i) xs)"

text \<open>\<open>max(bs)\<close> on a \<open>bytes\<close> value raises \<open>ValueError\<close> on the empty sequence.\<close>

definition py_max :: "bytes \<Rightarrow> error + byte" where
  "py_max bs = (case bs of [] \<Rightarrow> Inl ValueError | b # rest \<Rightarrow> Inr (fold max rest b))"

text \<open>\<open>s.replace("0x", "")\<close>: every non-overlapping occurrence, scanning from the left.\<close>

fun replace_0x :: "string \<Rightarrow> string" where
  "replace_0x (c # d # rest) =
     (if c = CHR ''0'' \<and> d = CHR ''x'' then replace_0x rest else c # replace_0x (d # rest))"
| "replace_0x s = s"

text \<open>\<open>s.lower()\<close> on ASCII text (addresses are ASCII).\<close>

definition upper_to_lower :: "(char \<times> char) list" where
  "upper_to_lower = zip ''ABCDEFGHIJKLMNOPQRSTUVWXYZ'' ''abcdefghijklmnopqrstuvwxyz''"

definition lower_char :: "char \<Rightarrow> char" where
  "lower_char c = (case map_of upper_to_lower c of Some d \<Rightarrow> d | None \<Rightarrow> c)"

definition lower :: "string \<Rightarrow> string" where
  "lower s = map lower_char s"

text \<open>\<open>str(n)\<close> for the f-strings of the command.\<close>

fun digit_char :: "nat \<Rightarrow> char" where
  "digit_char n = ''0123456789'' ! (n mod 10)"

function str_nat :: "nat \<Rightarrow> string" where
  "str_nat n = (if n < 10 then [digit_char n] else str_nat (n div 10) @ [digit_char n])"
  by pat_completeness auto
termination
  by (relation "measure (\<lambda>n. n)") auto

definition str_int :: "int \<Rightarrow> string" where
  "str_int i = (if i < 0 then CHR ''-'' # str_nat (nat (- i)) else str_nat (nat i))"

subsection \<open>\<open>eth_utils.to_canonical_address\<close>\<close>

text \<open>
  The library function normalises a hex address (an optional \<open>0x\<close> prefix and forty hex
  digits of either case) and decodes it to its 20 bytes; anything else raises
  \<open>ValueError\<close>.
\<close>

definition hex_digits :: "(char \<times> nat) list" where
  "hex_digits =
     zip ''0123456789abcdef'' [0 ..< 16] @ zip ''ABCDEF'' [10 ..< 16]"

definition hex_val :: "char \<Rightarrow> nat option" where
  "hex_val c = map_of hex_digits c"

fun decode_hex :: "string \<Rightarrow> bytes option" where
  "decode_hex [] = Some []"
| "decode_hex [c] = None"
| "decode_hex (h # l # rest) =
     (case hex_val h of
        None \<Rightarrow> None
      | Some a \<Rightarrow>
          (case hex_val l of
             None \<Rightarrow> None
           | Some b \<Rightarrow>
               (case decode_hex rest of
                  None \<Rightarrow> None
                | Some bs \<Rightarrow> Some (of_nat (16 * a + b) # bs))))"

definition remove_0x_prefix :: "string \<Rightarrow> string" where
  "remove_0x_prefix s =
     (case s of
        c # d # rest \<Rightarrow>
          if c = CHR ''0'' \<and> (d = CHR ''x'' \<or> d = CHR ''X'') then rest else s
      | _ \<Rightarrow> s)"

definition to_canonical_address :: "string \<Rightarrow> error + bytes" where
  "to_canonical_address address =
     (let digits = remove_0x_prefix address in
      if length digits = 40 then
        (case decode_hex digits of None \<Rightarrow> Inl ValueError | Some bs \<Rightarrow> Inr bs)
      else Inl ValueError)"

section \<open>The \<open>mine\<close> command\<close>

text \<open>
  The options of the command that decide its control flow. The remaining parameters
  (creation type, deployer, protections, contract and constructor arguments) are only
  handed on to \<open>createx.compute_address\<close>, which is a parameter of the model: a function
  from the salt to the derived address, or to the exception it raises.
\<close>

record mine_args =
  leading_zeros :: "int option"
  starts_with :: "string option"
  trailing_zeros :: "int option"
  ends_with :: "string option"
  case_sensitive :: bool
  max_iterations :: int

text \<open>
  The closures appended to \<open>conditions\<close>, by name. Python closures read the variables of
  the enclosing call when they run, so each one is evaluated against the options and
  against the value \<open>pattern_size\<close> holds once validation is over: the two pattern
  closures share that one variable.
\<close>

datatype condition =
    HasEnoughLeadingZeros
  | StartsWithPattern
  | HasEnoughTrailingZeros
  | EndsWithPattern

record mine_locals =
  conditions :: "condition list"
  pattern_size :: "nat option"
  warnings :: "string list"

definition has_enough_leading_zeros :: "mine_args \<Rightarrow> string \<Rightarrow> error + bool" where
  "has_enough_leading_zeros args address =
     (case to_canonical_address address of
        Inl e \<Rightarrow> Inl e
      | Inr bs \<Rightarrow>
          (case py_max (slice_upto bs (leading_zeros args)) of
             Inl e \<Rightarrow> Inl e
           | Inr m \<Rightarrow> Inr (m = 0)))"

definition starts_with_pattern :: "mine_args \<Rightarrow> nat option \<Rightarrow> string \<Rightarrow> error + bool" where
  "starts_with_pattern args psize address =
     (case psize of
        None \<Rightarrow> Inl NameError
      | Some n \<Rightarrow>
          (let start = slice_upto (replace_0x address) (Some (int n)) in
           if case_sensitive args then Inr (Some start = starts_with args)
           else Inr (Some (lower start) = starts_with args)))"

definition has_enough_trailing_zeros :: "mine_args \<Rightarrow> string \<Rightarrow> error + bool" where
  "has_enough_trailing_zeros args address =
     (case to_canonical_address address of
        Inl e \<Rightarrow> Inl e
      | Inr bs \<Rightarrow>
          (case trailing_zeros args of
             None \<Rightarrow> Inl TypeError
           | Some n \<Rightarrow>
               (case py_max (slice_from bs (- n)) of
                  Inl e \<Rightarrow> Inl e
                | Inr m \<Rightarrow> Inr (m = 0))))"

definition ends_with_pattern :: "mine_args \<Rightarrow> nat option \<Rightarrow> string \<Rightarrow> error + bool" where
  "ends_with_pattern args psize address =
     (case psize of
        None \<Rightarrow> Inl NameError
      | Some n \<Rightarrow>
          (let ending = slice_from address (- int n) in
           if case_sensitive args then Inr (Some ending = ends_with args)
           else Inr (Some (lower ending) = ends_with args)))"

fun call_condition :: "mine_args \<Rightarrow> nat option \<Rightarrow> condition \<Rightarrow> string \<Rightarrow> error + bool" where
  "call_condition args psize HasEnoughLeadingZeros address = has_enough_leading_zeros args address"
| "call_condition args psize StartsWithPattern address = starts_with_pattern args psize address"
| "call_condition args psize HasEnoughTrailingZeros address = has_enough_trailing_zeros args address"
| "call_condition args psize EndsWithPattern address = ends_with_pattern args psize address"

text \<open>\<open>all(cond(address) for cond in conditions)\<close>: stops at the first condition that
  is false or raises.\<close>

fun conditions_met :: "mine_args \<Rightarrow> nat option \<Rightarrow> condition list \<Rightarrow> string \<Rightarrow> error + bool" where
  "conditions_met args psize [] address = Inr True"
| "conditions_met args psize (cond # rest) address =
     (case call_condition args psize cond address of
        Inl e \<Rightarrow> Inl e
      | Inr False \<Rightarrow> Inr False
      | Inr True \<Rightarrow> conditions_met args psize rest address)"

subsection \<open>Validation of the options\<close>

text \<open>Truthiness of an optional integer and of an optional string.\<close>

definition truthy_int :: "int option \<Rightarrow> bool" where
  "truthy_int v = (case v of None \<Rightarrow> False | Some n \<Rightarrow> n \<noteq> 0)"

definition truthy_str :: "string option \<Rightarrow> bool" where
  "truthy_str v = (case v of None \<Rightarrow> False | Some s \<Rightarrow> s \<noteq> [])"

text \<open>
  The first statement of \<open>mine\<close> builds a \<open>click.UsageError\<close> when an exclusive pair of
  options is set, but the expression is not under a \<open>raise\<close>: the exception object is
  the value of an expression statement and is dropped. \<open>exclusive_pair_error\<close> is that
  object; \<open>build_conditions\<close> evaluates it and goes on.
\<close>

definition exclusive_pair_error :: "mine_args \<Rightarrow> error option" where
  "exclusive_pair_error args =
     (if truthy_int (leading_zeros args) \<and> truthy_str (starts_with args) then
        Some (UsageError ''Cannot use both `--leading-zeros` and `--starts-with` together.'')
      else if truthy_int (trailing_zeros args) \<and> truthy_str (ends_with args) then
        Some (UsageError ''Cannot use both `--trailing-zeros` and `--ends-with` together.'')
      else None)"

definition hex_alphabet :: "char set" where
  "hex_alphabet = set ''0123456789AaBbCcDdEeFf''"

definition add_leading_zeros :: "mine_args \<Rightarrow> mine_locals \<Rightarrow> error + mine_locals" where
  "add_leading_zeros args loc =
     (case leading_zeros args of
        None \<Rightarrow> Inr loc
      | Some n \<Rightarrow>
          if n \<le> 0 then Inl (BadOptionUsage ''leading_zeros'' ''Cannot be less than 1'')
          else
            Inr (loc\<lparr>conditions := conditions loc @ [HasEnoughLeadingZeros],
                     warnings :=
                       (if n > 8 then
                          warnings loc @
                            [''`--leading-zeros` greater than 8 will likely not converge.'']
                        else warnings loc)\<rparr>))"

definition add_starts_with :: "mine_args \<Rightarrow> mine_locals \<Rightarrow> error + mine_locals" where
  "add_starts_with args loc =
     (case starts_with args of
        None \<Rightarrow> Inr loc
      | Some pattern \<Rightarrow>
          if \<not> set pattern \<subseteq> hex_alphabet then
            Inl (BadOptionUsage ''starts_with'' ''Must be valid hex'')
          else
            Inr (loc\<lparr>conditions := conditions loc @ [StartsWithPattern],
                     pattern_size := Some (length pattern),
                     warnings :=
                       (if length pattern > 8 then
                          warnings loc @
                            [''`--starts-with` pattern size greater than 8 will likely not converge.'']
                        else warnings loc)\<rparr>))"

definition add_trailing_zeros :: "mine_args \<Rightarrow> mine_locals \<Rightarrow> error + mine_locals" where
  "add_trailing_zeros args loc =
     (case trailing_zeros args of
        None \<Rightarrow> Inr loc
      | Some n \<Rightarrow>
          if n \<le> 0 then Inl (BadOptionUsage ''trailing_zeros'' ''Cannot be less than 1'')
          else
            Inr (loc\<lparr>conditions := conditions loc @ [HasEnoughTrailingZeros],
                     warnings :=
                       (if n > 8 then
                          warnings loc @
                            [''`--trailing-zeros` greater than 8 will likely not converge.'']
                        else warnings loc)\<rparr>))"

definition add_ends_with :: "mine_args \<Rightarrow> mine_locals \<Rightarrow> error + mine_locals" where
  "add_ends_with args loc =
     (case ends_with args of
        None \<Rightarrow> Inr loc
      | Some pattern \<Rightarrow>
          if \<not> set pattern \<subseteq> hex_alphabet then
            Inl (BadOptionUsage ''ends_with'' ''Must be valid hex'')
          else
            Inr (loc\<lparr>conditions := conditions loc @ [EndsWithPattern],
                     pattern_size := Some (length pattern),
                     warnings :=
                       (if length pattern > 8 then
                          warnings loc @
                            [''`--ends-with` pattern size greater than 8 will likely not converge.'']
                        else warnings loc)\<rparr>))"

definition no_conditions_message :: string where
  "no_conditions_message =
     ''Must use one of: --leading-zeros, --trailing-zeros, --starts-with, --ends-with''"

definition require_conditions :: "mine_locals \<Rightarrow> error + mine_locals" where
  "require_conditions loc =
     (if conditions loc = [] then Inl (UsageError no_conditions_message) else Inr loc)"

definition initial_locals :: mine_locals where
  "initial_locals = \<lparr>conditions = [], pattern_size = None, warnings = []\<rparr>"

text \<open>Lines 171 to 260 of \<open>mine\<close>: everything before the factory handle is obtained.\<close>

definition build_conditions :: "mine_args \<Rightarrow> error + mine_locals" where
  "build_conditions args =
     (let dropped = exclusive_pair_error args in
      case add_leading_zeros args initial_locals of
        Inl e \<Rightarrow> Inl e
      | Inr l1 \<Rightarrow>
          (case add_starts_with args l1 of
             Inl e \<Rightarrow> Inl e
           | Inr l2 \<Rightarrow>
               (case add_trailing_zeros args l2 of
                  Inl e \<Rightarrow> Inl e
                | Inr l3 \<Rightarrow>
                    (case add_ends_with args l3 of
                       Inl e \<Rightarrow> Inl e
                     | Inr l4 \<Rightarrow> require_conditions l4))))"

subsection \<open>The search loop\<close>

text \<open>
  The result printed on success: the address, the iteration count and the salt. The loop
  state is \<open>salt\<close> and \<open>iterations\<close>. Next to its outcome the loop returns a ghost value:
  the salts \<open>compute_address\<close> was called with, in order, so that the derivation calls of
  a run can be counted.
\<close>

datatype found = Found string int bytes

definition exhausted_message :: "int \<Rightarrow> string" where
  "exhausted_message iterations =
     ''Could not find solution in '' @ str_int iterations @ '' iterations.''"

function mine_loop ::
  "(bytes \<Rightarrow> error + string) \<Rightarrow> (string \<Rightarrow> error + bool) \<Rightarrow> int \<Rightarrow>
   bytes \<Rightarrow> int \<Rightarrow> (error + found) \<times> bytes list" where
  "mine_loop compute_address met max_iter salt iterations =
     (case compute_address salt of
        Inl e \<Rightarrow> (Inl e, [salt])
      | Inr address \<Rightarrow>
          (case met address of
             Inl e \<Rightarrow> (Inl e, [salt])
           | Inr True \<Rightarrow> (Inr (Found address iterations salt), [salt])
           | Inr False \<Rightarrow>
               if iterations \<ge> max_iter then
                 (Inl (UsageError (exhausted_message iterations)), [salt])
               else
                 (case to_canonical_address address of
                    Inl e \<Rightarrow> (Inl e, [salt])
                  | Inr bs \<Rightarrow>
                      apsnd ((#) salt)
                        (mine_loop compute_address met max_iter
                           (slice_upto bs (Some 11)) (iterations + 1)))))"
  by pat_completeness auto
termination
  by (relation "measure (\<lambda>(compute_address, met, max_iter, salt, iterations).
                   nat (max_iter - iterations))") auto

text \<open>
  The command: validation, then the loop from the random initial salt
  (\<open>random.randbytes(11)\<close>, a parameter) with \<open>iterations = 0\<close>. A run that fails
  validation has called \<open>compute_address\<close> no times. Between the two the command obtains
  the factory handle (\<open>CreateX()\<close>, or \<open>CreateX.inject()\<close> on \<open>RuntimeError\<close>); the
  handle only serves to call \<open>compute_address\<close> and obtaining it is taken to succeed.
\<close>

definition mine ::
  "mine_args \<Rightarrow> (bytes \<Rightarrow> error + string) \<Rightarrow> bytes \<Rightarrow> (error + found) \<times> bytes list" where
  "mine args compute_address salt0 =
     (case build_conditions args of
        Inl e \<Rightarrow> (Inl e, [])
      | Inr loc \<Rightarrow>
          mine_loop compute_address
            (conditions_met args (pattern_size loc) (conditions loc))
            (max_iterations args) salt0 0)"

section \<open>Notions used in the statements\<close>

text \<open>An option value that validation rejects.\<close>

definition non_positive :: "int option \<Rightarrow> bool" where
  "non_positive v = (case v of None \<Rightarrow> False | Some n \<Rightarrow> n \<le> 0)"

definition non_hex :: "string option \<Rightarrow> bool" where
  "non_hex v = (case v of None \<Rightarrow> False | Some pattern \<Rightarrow> \<not> set pattern \<subseteq> hex_alphabet)"

text \<open>
  What validation leaves behind when it accepts the options, written out: the closures in
  the order of the four \<open>if\<close> blocks, and the last value assigned to \<open>pattern_size\<close>.
  Lemma \<open>build_accepts\<close> below proves that \<open>build_conditions\<close> returns exactly these.
\<close>

definition requested :: "mine_args \<Rightarrow> condition list" where
  "requested args =
     (if leading_zeros args = None then [] else [HasEnoughLeadingZeros]) @
     (if starts_with args = None then [] else [StartsWithPattern]) @
     (if trailing_zeros args = None then [] else [HasEnoughTrailingZeros]) @
     (if ends_with args = None then [] else [EndsWithPattern])"

definition final_pattern_size :: "mine_args \<Rightarrow> nat option" where
  "final_pattern_size args =
     (case ends_with args of
        Some pattern \<Rightarrow> Some (length pattern)
      | None \<Rightarrow> (case starts_with args of Some pattern \<Rightarrow> Some (length pattern) | None \<Rightarrow> None))"

section \<open>Inputs used in the examples\<close>

text \<open>The command-line defaults: no condition requested, case-insensitive patterns,
  a budget of 5000 iterations.\<close>

definition default_args :: mine_args where
  "default_args =
     \<lparr>leading_zeros = None, starts_with = None, trailing_zeros = None, ends_with = None,
      case_sensitive = False, max_iterations = 5000\<rparr>"

text \<open>Two checksummed addresses, an initial salt, and a deriver that answers the second
  address for the salt taken from the first and the first address for every other salt.\<close>

definition address_miss :: string where
  "address_miss = ''0x0102030405060708090a0B0c0d0e0f1011121314''"

definition address_hit :: string where
  "address_hit = ''0x00aB030405060708090a0B0c0d0e0f101112cD00''"

definition bytes_miss :: bytes where
  "bytes_miss = [1, 2, 3, 4, 5, 6, 7, 8, 9, 10, 11, 12, 13, 14, 15, 16, 17, 18, 19, 20]"

definition bytes_hit :: bytes where
  "bytes_hit = [0, 171, 3, 4, 5, 6, 7, 8, 9, 10, 11, 12, 13, 14, 15, 16, 17, 18, 205, 0]"

definition salt_start :: bytes where
  "salt_start = [0, 0, 0, 0, 0, 0, 0, 0, 0, 0, 0]"

definition salt_next :: bytes where
  "salt_next = [1, 2, 3, 4, 5, 6, 7, 8, 9, 10, 11]"

definition example_deriver :: "bytes \<Rightarrow> error + string" where
  "example_deriver salt = (if salt = salt_next then Inr address_hit else Inr address_miss)"

declare mine_loop.simps [simp del]

section \<open>Canonical addresses, slices and maxima\<close>

lemma decode_hex_length: "decode_hex s = Some bs \<Longrightarrow> length s = 2 * length bs"
  by (induction s arbitrary: bs rule: decode_hex.induct) (auto split: option.splits)

lemma to_canonical_address_length:
  assumes "to_canonical_address address = Inr bs"
  shows "length bs = 20"
proof -
  from assms obtain digits where "length digits = 40" "decode_hex digits = Some bs"
    by (auto simp: to_canonical_address_def Let_def split: if_splits option.splits)
  then show ?thesis
    by (auto dest: decode_hex_length)
qed

lemma fold_max_zero: "fold max rest (b :: byte) = 0 \<longleftrightarrow> b = 0 \<and> (\<forall>x \<in> set rest. x = 0)"
proof (induction rest arbitrary: b)
  case Nil
  then show ?case by simp
next
  case (Cons x rest)
  have "max x b = 0 \<longleftrightarrow> x = 0 \<and> b = 0"
    by (metis max.absorb1 max.absorb2 max.commute word_coorder.extremum word_le_0_iff linear)
  with Cons show ?case by auto
qed

lemma py_max_zero:
  "bs \<noteq> [] \<Longrightarrow> py_max bs = Inr m \<Longrightarrow> (m = 0) = (\<forall>b \<in> set bs. b = 0)"
  by (cases bs) (auto simp: py_max_def fold_max_zero)

lemma py_max_nonempty: "bs \<noteq> [] \<Longrightarrow> \<exists>m. py_max bs = Inr m"
  by (cases bs) (auto simp: py_max_def)

lemma all_take_nth: "k \<le> length bs \<Longrightarrow> (\<forall>b \<in> set (take k bs). P b) = (\<forall>i<k. P (bs ! i))"
proof -
  assume "k \<le> length bs"
  then have "set (take k bs) = nth bs ` {0..<k}"
    by (simp add: nth_image)
  then show ?thesis by auto
qed

lemma all_drop_nth:
  assumes "k \<le> length bs"
  shows "(\<forall>b \<in> set (drop (length bs - k) bs). P b) = (\<forall>i<k. P (bs ! (length bs - k + i)))"
proof -
  let ?d = "drop (length bs - k) bs"
  have len: "length ?d = k"
    using assms by simp
  have "set ?d = nth ?d ` {0..<k}"
    using nth_image [of k ?d] len by simp
  also have "\<dots> = (\<lambda>i. bs ! (length bs - k + i)) ` {0..<k}"
    using assms by (intro image_cong) auto
  finally show ?thesis by auto
qed


section \<open>Case folding\<close>

lemma lower_char_not_upper: "lower_char c \<notin> set ''ABCDEFGHIJKLMNOPQRSTUVWXYZ''"
proof (cases "map_of upper_to_lower c")
  case None
  then have "c \<notin> fst ` set upper_to_lower"
    by (simp add: map_of_eq_None_iff)
  then have "c \<notin> set ''ABCDEFGHIJKLMNOPQRSTUVWXYZ''"
    by (simp add: upper_to_lower_def)
  then show ?thesis
    using None by (simp add: lower_char_def)
next
  case (Some d)
  then have "(c, d) \<in> set upper_to_lower"
    by (rule map_of_SomeD)
  then have "d \<in> set ''abcdefghijklmnopqrstuvwxyz''"
    by (auto simp: upper_to_lower_def)
  then have "d \<notin> set ''ABCDEFGHIJKLMNOPQRSTUVWXYZ''"
    by auto
  then show ?thesis
    using Some by (simp add: lower_char_def)
qed

lemma lower_never_upper:
  assumes "c \<in> set pattern" and "c \<in> set ''ABCDEF''"
  shows "lower s \<noteq> pattern"
proof
  assume "lower s = pattern"
  then obtain d where "c = lower_char d"
    using assms(1) by (auto simp: lower_def)
  moreover have "c \<in> set ''ABCDEFGHIJKLMNOPQRSTUVWXYZ''"
    using assms(2) by auto
  ultimately show False
    using lower_char_not_upper [of d] by simp
qed

lemma uppercase_pattern_unmatched:
  assumes "\<not> case_sensitive args" and "c \<in> set pattern" and "c \<in> set ''ABCDEF''"
  shows "starts_with args = Some pattern \<Longrightarrow>
           starts_with_pattern args (Some n) address = Inr False"
    and "ends_with args = Some pattern \<Longrightarrow>
           ends_with_pattern args (Some n) address = Inr False"
  using assms(1) lower_never_upper [OF assms(2,3)]
  by (simp_all add: starts_with_pattern_def ends_with_pattern_def Let_def)

section \<open>The order of validation\<close>

lemma build_rejects_leading:
  "non_positive (leading_zeros args) \<Longrightarrow>
   build_conditions args = Inl (BadOptionUsage ''leading_zeros'' ''Cannot be less than 1'')"
  by (auto simp: non_positive_def build_conditions_def add_leading_zeros_def
      split: option.splits)

lemma add_leading_zeros_ok:
  "\<not> non_positive (leading_zeros args) \<Longrightarrow>
   add_leading_zeros args loc = Inr l1 \<Longrightarrow>
   conditions l1 = conditions loc @ (if leading_zeros args = None then [] else [HasEnoughLeadingZeros])
   \<and> pattern_size l1 = pattern_size loc"
  by (auto simp: non_positive_def add_leading_zeros_def split: option.splits if_splits)

lemma add_leading_zeros_total:
  "\<not> non_positive (leading_zeros args) \<Longrightarrow> \<exists>l1. add_leading_zeros args loc = Inr l1"
  by (auto simp: non_positive_def add_leading_zeros_def split: option.splits)

lemma add_trailing_zeros_ok:
  "add_trailing_zeros args loc = Inr l1 \<Longrightarrow>
   conditions l1 = conditions loc @ (if trailing_zeros args = None then [] else [HasEnoughTrailingZeros])
   \<and> pattern_size l1 = pattern_size loc \<and> \<not> non_positive (trailing_zeros args)"
  by (auto simp: non_positive_def add_trailing_zeros_def split: option.splits if_splits)

lemma add_trailing_zeros_total:
  "\<not> non_positive (trailing_zeros args) \<Longrightarrow> \<exists>l1. add_trailing_zeros args loc = Inr l1"
  by (auto simp: non_positive_def add_trailing_zeros_def split: option.splits)

lemma add_trailing_zeros_fails:
  "non_positive (trailing_zeros args) \<Longrightarrow>
   add_trailing_zeros args loc = Inl (BadOptionUsage ''trailing_zeros'' ''Cannot be less than 1'')"
  by (auto simp: non_positive_def add_trailing_zeros_def split: option.splits)

lemma add_starts_with_ok:
  "add_starts_with args loc = Inr l1 \<Longrightarrow>
   conditions l1 = conditions loc @ (if starts_with args = None then [] else [StartsWithPattern])
   \<and> pattern_size l1 = (case starts_with args of None \<Rightarrow> pattern_size loc
                          | Some pattern \<Rightarrow> Some (length pattern))
   \<and> \<not> non_hex (starts_with args)"
  by (auto simp: non_hex_def add_starts_with_def split: option.splits if_splits)

lemma add_starts_with_total:
  "\<not> non_hex (starts_with args) \<Longrightarrow> \<exists>l1. add_starts_with args loc = Inr l1"
  by (auto simp: non_hex_def add_starts_with_def split: option.splits)

lemma add_starts_with_fails:
  "non_hex (starts_with args) \<Longrightarrow>
   add_starts_with args loc = Inl (BadOptionUsage ''starts_with'' ''Must be valid hex'')"
  by (auto simp: non_hex_def add_starts_with_def split: option.splits)

lemma add_ends_with_ok:
  "add_ends_with args loc = Inr l1 \<Longrightarrow>
   conditions l1 = conditions loc @ (if ends_with args = None then [] else [EndsWithPattern])
   \<and> pattern_size l1 = (case ends_with args of None \<Rightarrow> pattern_size loc
                          | Some pattern \<Rightarrow> Some (length pattern))
   \<and> \<not> non_hex (ends_with args)"
  by (auto simp: non_hex_def add_ends_with_def split: option.splits if_splits)

lemma add_ends_with_total:
  "\<not> non_hex (ends_with args) \<Longrightarrow> \<exists>l1. add_ends_with args loc = Inr l1"
  by (auto simp: non_hex_def add_ends_with_def split: option.splits)

lemma add_ends_with_fails:
  "non_hex (ends_with args) \<Longrightarrow>
   add_ends_with args loc = Inl (BadOptionUsage ''ends_with'' ''Must be valid hex'')"
  by (auto simp: non_hex_def add_ends_with_def split: option.splits)

lemma add_leading_zeros_valid:
  "add_leading_zeros args loc = Inr l1 \<Longrightarrow> \<not> non_positive (leading_zeros args)"
  by (auto simp: non_positive_def add_leading_zeros_def split: option.splits if_splits)

text \<open>The order of the checks.\<close>

lemma build_rejects_starts_with:
  assumes "\<not> non_positive (leading_zeros args)" and "non_hex (starts_with args)"
  shows "build_conditions args = Inl (BadOptionUsage ''starts_with'' ''Must be valid hex'')"
proof -
  obtain l1 where "add_leading_zeros args initial_locals = Inr l1"
    using add_leading_zeros_total [OF assms(1)] by blast
  then show ?thesis
    by (simp add: build_conditions_def add_starts_with_fails [OF assms(2)])
qed

lemma build_rejects_trailing:
  assumes "\<not> non_positive (leading_zeros args)" and "\<not> non_hex (starts_with args)"
    and "non_positive (trailing_zeros args)"
  shows "build_conditions args = Inl (BadOptionUsage ''trailing_zeros'' ''Cannot be less than 1'')"
proof -
  obtain l1 where l1: "add_leading_zeros args initial_locals = Inr l1"
    using add_leading_zeros_total [OF assms(1)] by blast
  obtain l2 where "add_starts_with args l1 = Inr l2"
    using add_starts_with_total [OF assms(2)] by blast
  then show ?thesis
    by (simp add: build_conditions_def l1 add_trailing_zeros_fails [OF assms(3)])
qed

lemma build_rejects_ends_with:
  assumes "\<not> non_positive (leading_zeros args)" and "\<not> non_hex (starts_with args)"
    and "\<not> non_positive (trailing_zeros args)" and "non_hex (ends_with args)"
  shows "build_conditions args = Inl (BadOptionUsage ''ends_with'' ''Must be valid hex'')"
proof -
  obtain l1 where l1: "add_leading_zeros args initial_locals = Inr l1"
    using add_leading_zeros_total [OF assms(1)] by blast
  obtain l2 where l2: "add_starts_with args l1 = Inr l2"
    using add_starts_with_total [OF assms(2)] by blast
  obtain l3 where "add_trailing_zeros args l2 = Inr l3"
    using add_trailing_zeros_total [OF assms(3)] by blast
  then show ?thesis
    by (simp add: build_conditions_def l1 l2 add_ends_with_fails [OF assms(4)])
qed

lemma build_accepts:
  assumes "build_conditions args = Inr loc"
  shows "conditions loc = requested args \<and> conditions loc \<noteq> []
       \<and> pattern_size loc = final_pattern_size args
       \<and> \<not> non_positive (leading_zeros args) \<and> \<not> non_hex (starts_with args)
       \<and> \<not> non_positive (trailing_zeros args) \<and> \<not> non_hex (ends_with args)"
proof -
  from assms obtain l1 l2 l3 l4 where
    s1: "add_leading_zeros args initial_locals = Inr l1" and
    s2: "add_starts_with args l1 = Inr l2" and
    s3: "add_trailing_zeros args l2 = Inr l3" and
    s4: "add_ends_with args l3 = Inr l4" and
    s5: "require_conditions l4 = Inr loc"
    by (auto simp: build_conditions_def split: sum.splits)
  have v1: "\<not> non_positive (leading_zeros args)"
    using s1 by (rule add_leading_zeros_valid)
  have loc: "loc = l4" "conditions l4 \<noteq> []"
    using s5 by (auto simp: require_conditions_def split: if_splits)
  show ?thesis
    using add_leading_zeros_ok [OF v1 s1] add_starts_with_ok [OF s2]
      add_trailing_zeros_ok [OF s3] add_ends_with_ok [OF s4] loc v1
    by (auto simp: requested_def final_pattern_size_def initial_locals_def split: option.splits)
qed

lemma build_total:
  assumes "\<not> non_positive (leading_zeros args)" and "\<not> non_hex (starts_with args)"
    and "\<not> non_positive (trailing_zeros args)" and "\<not> non_hex (ends_with args)"
    and "requested args \<noteq> []"
  shows "\<exists>loc. build_conditions args = Inr loc"
proof -
  obtain l1 where l1: "add_leading_zeros args initial_locals = Inr l1"
    using add_leading_zeros_total [OF assms(1)] by blast
  obtain l2 where l2: "add_starts_with args l1 = Inr l2"
    using add_starts_with_total [OF assms(2)] by blast
  obtain l3 where l3: "add_trailing_zeros args l2 = Inr l3"
    using add_trailing_zeros_total [OF assms(3)] by blast
  obtain l4 where l4: "add_ends_with args l3 = Inr l4"
    using add_ends_with_total [OF assms(4)] by blast
  have "conditions l4 = requested args"
    using add_leading_zeros_ok [OF assms(1) l1] add_starts_with_ok [OF l2]
      add_trailing_zeros_ok [OF l3] add_ends_with_ok [OF l4]
    by (simp add: requested_def initial_locals_def)
  then show ?thesis
    using assms(5) by (simp add: build_conditions_def l1 l2 l3 l4 require_conditions_def)
qed

text \<open>Nothing in validation depends on the exclusive pairs.\<close>

lemma exclusive_pair_accepted:
  assumes "truthy_int (leading_zeros args)" and "truthy_str (starts_with args)"
    and "\<not> non_positive (leading_zeros args)" and "\<not> non_hex (starts_with args)"
    and "\<not> non_positive (trailing_zeros args)" and "\<not> non_hex (ends_with args)"
  shows "\<exists>loc. build_conditions args = Inr loc
           \<and> HasEnoughLeadingZeros \<in> set (conditions loc)
           \<and> StartsWithPattern \<in> set (conditions loc)"
proof -
  have given: "leading_zeros args \<noteq> None" "starts_with args \<noteq> None"
    using assms(1,2) by (auto simp: truthy_int_def truthy_str_def split: option.splits)
  then have "requested args \<noteq> []"
    by (auto simp: requested_def)
  then obtain loc where loc: "build_conditions args = Inr loc"
    using build_total [OF assms(3-6)] by blast
  then show ?thesis
    using build_accepts [OF loc] given by (auto simp: requested_def)
qed

section \<open>Lemmas about the search loop\<close>

lemma mine_loop_step:
  assumes "ca s = Inr a" and "met a = Inr False" and "\<not> k \<le> it"
    and "to_canonical_address a = Inr bs"
  shows "mine_loop ca met k s it =
         apsnd ((#) s) (mine_loop ca met k (slice_upto bs (Some 11)) (it + 1))"
  using assms by (subst mine_loop.simps) simp

lemma mine_loop_stop:
  assumes "\<not> (\<exists>a bs. ca s = Inr a \<and> met a = Inr False \<and> \<not> k \<le> it
              \<and> to_canonical_address a = Inr bs)"
  shows "snd (mine_loop ca met k s it) = [s]"
  using assms by (subst mine_loop.simps) (auto split: sum.splits bool.splits)

lemma mine_loop_first: "\<exists>rest. snd (mine_loop ca met k s it) = s # rest"
  by (subst mine_loop.simps) (auto split: sum.splits bool.splits)

lemma mine_loop_calls_bound: "length (snd (mine_loop ca met k s it)) \<le> nat (k - it) + 1"
proof (induction ca met k s it rule: mine_loop.induct)
  case (1 ca met k s it)
  show ?case
  proof (cases "\<exists>a bs. ca s = Inr a \<and> met a = Inr False \<and> \<not> k \<le> it
                  \<and> to_canonical_address a = Inr bs")
    case True
    then obtain a bs where h: "ca s = Inr a" "met a = Inr False" "\<not> k \<le> it"
        "to_canonical_address a = Inr bs"
      by blast
    have "length (snd (mine_loop ca met k (slice_upto bs (Some 11)) (it + 1)))
            \<le> nat (k - (it + 1)) + 1"
      using "1.IH" [of a False bs] h by simp
    then show ?thesis
      using h(3) mine_loop_step [of ca s a met k it bs] h by simp
  next
    case False
    then show ?thesis
      by (simp add: mine_loop_stop)
  qed
qed

lemma mine_loop_outcome:
  assumes total: "\<And>salt. \<exists>a bs b. ca salt = Inr a \<and> to_canonical_address a = Inr bs
                    \<and> met a = Inr b"
    and "it \<le> k"
  shows "(\<exists>a n x. fst (mine_loop ca met k s it) = Inr (Found a n x))
       \<or> fst (mine_loop ca met k s it) = Inl (UsageError (exhausted_message k))"
  using assms
proof (induction ca met k s it rule: mine_loop.induct)
  case (1 ca met k s it)
  obtain a bs b where h: "ca s = Inr a" "to_canonical_address a = Inr bs" "met a = Inr b"
    using "1.prems"(1) [of s] by blast
  show ?case
  proof (cases b)
    case True
    then show ?thesis
      using h by (subst mine_loop.simps) simp
  next
    case False
    then have rejected: "met a = Inr False"
      using h(3) by simp
    show ?thesis
    proof (cases "k \<le> it")
      case True
      have "mine_loop ca met k s it = (Inl (UsageError (exhausted_message it)), [s])"
        using h(1) rejected True by (subst mine_loop.simps) simp
      moreover have "it = k"
        using True \<open>it \<le> k\<close> by simp
      ultimately show ?thesis by simp
    next
      case budget: False
      have "(\<exists>a n x. fst (mine_loop ca met k (slice_upto bs (Some 11)) (it + 1))
                = Inr (Found a n x))
          \<or> fst (mine_loop ca met k (slice_upto bs (Some 11)) (it + 1))
                = Inl (UsageError (exhausted_message k))"
        using "1.IH" [of a False bs] h(1,2) rejected budget "1.prems"(1) by simp
      then show ?thesis
        by (simp add: mine_loop_step [of ca s a met k it bs] h(1,2) rejected budget)
    qed
  qed
qed

lemma mine_loop_found:
  assumes "mine_loop ca met k s it = (Inr (Found a n x), derived)"
  shows "n = it + int (length derived) - 1 \<and> last derived = x
       \<and> ca x = Inr a \<and> met a = Inr True
       \<and> (\<forall>y \<in> set (butlast derived). \<exists>a'. ca y = Inr a' \<and> met a' = Inr False)"
  using assms
proof (induction ca met k s it arbitrary: derived rule: mine_loop.induct)
  case (1 ca met k s it)
  show ?case
  proof (cases "\<exists>a bs. ca s = Inr a \<and> met a = Inr False \<and> \<not> k \<le> it
                  \<and> to_canonical_address a = Inr bs")
    case True
    then obtain a' bs where h: "ca s = Inr a'" "met a' = Inr False" "\<not> k \<le> it"
        "to_canonical_address a' = Inr bs"
      by blast
    let ?next = "mine_loop ca met k (slice_upto bs (Some 11)) (it + 1)"
    have eq: "apsnd ((#) s) ?next = (Inr (Found a n x), derived)"
      using "1.prems" mine_loop_step [of ca s a' met k it bs] h by simp
    then obtain rest where rest: "?next = (Inr (Found a n x), rest)" "derived = s # rest"
      by (cases ?next) auto
    obtain r where "rest = slice_upto bs (Some 11) # r"
      using mine_loop_first [of ca met k "slice_upto bs (Some 11)" "it + 1"] rest(1) by auto
    then have ne: "rest \<noteq> []" by simp
    have ih: "n = it + 1 + int (length rest) - 1 \<and> last rest = x
       \<and> ca x = Inr a \<and> met a = Inr True
       \<and> (\<forall>y \<in> set (butlast rest). \<exists>a'. ca y = Inr a' \<and> met a' = Inr False)"
      using "1.IH" [of a' False bs rest] h rest(1) by simp
    show ?thesis
      using ih ne h(1,2) by (auto simp: rest(2))
  next
    case False
    then have stop: "derived = [s]"
      using mine_loop_stop [of ca s met k it] "1.prems" by simp
    have "ca s = Inr a \<and> met a = Inr True \<and> n = it \<and> x = s"
      using "1.prems" False
      by (subst (asm) mine_loop.simps) (auto split: sum.splits bool.splits if_splits)
    then show ?thesis
      by (simp add: stop)
  qed
qed

lemma mine_loop_walk:
  assumes "i < length (snd (mine_loop ca met k s it))"
    and "ca (snd (mine_loop ca met k s it) ! i) = Inr a"
    and "met a = Inr False"
    and "it + int i < k"
    and "to_canonical_address a = Inr bs"
  shows "Suc i < length (snd (mine_loop ca met k s it))
       \<and> snd (mine_loop ca met k s it) ! Suc i = slice_upto bs (Some 11)"
  using assms
proof (induction ca met k s it arbitrary: i rule: mine_loop.induct)
  case (1 ca met k s it)
  let ?run = "snd (mine_loop ca met k s it)"
  show ?case
  proof (cases i)
    case 0
    have "?run ! 0 = s"
      using mine_loop_first [of ca met k s it] by auto
    then have h: "ca s = Inr a" "\<not> k \<le> it"
      using "1.prems"(2,4) 0 by simp_all
    let ?next = "snd (mine_loop ca met k (slice_upto bs (Some 11)) (it + 1))"
    have run: "?run = s # ?next"
      by (simp add: mine_loop_step [of ca s a met k it bs] h "1.prems"(3,5))
    obtain r where "?next = slice_upto bs (Some 11) # r"
      using mine_loop_first [of ca met k "slice_upto bs (Some 11)" "it + 1"] by auto
    then show ?thesis
      using 0 by (simp add: run)
  next
    case (Suc j)
    have long: "length ?run \<noteq> 1"
      using "1.prems"(1) Suc by simp
    then obtain a' bs' where h: "ca s = Inr a'" "met a' = Inr False" "\<not> k \<le> it"
        "to_canonical_address a' = Inr bs'"
      using mine_loop_stop [of ca s met k it] by fastforce
    let ?next = "snd (mine_loop ca met k (slice_upto bs' (Some 11)) (it + 1))"
    have run: "?run = s # ?next"
      by (simp add: mine_loop_step [of ca s a' met k it bs'] h)
    have "Suc j < length ?next \<and> ?next ! Suc j = slice_upto bs (Some 11)"
      using "1.IH" [of a' False bs' j] h "1.prems" Suc by (simp add: run)
    then show ?thesis
      using Suc by (simp add: run)
  qed
qed

section \<open>Evaluating the examples\<close>

lemma canonical_miss: "to_canonical_address address_miss = Inr bytes_miss"
  by (simp add: to_canonical_address_def remove_0x_prefix_def hex_val_def hex_digits_def
      upt_rec address_miss_def bytes_miss_def)

lemma canonical_hit: "to_canonical_address address_hit = Inr bytes_hit"
  by (simp add: to_canonical_address_def remove_0x_prefix_def hex_val_def hex_digits_def
      upt_rec address_hit_def bytes_hit_def)

lemma salt_of_miss: "slice_upto bytes_miss (Some 11) = salt_next"
  by (simp add: slice_upto_def bytes_miss_def salt_next_def)

lemma salts_differ: "salt_start \<noteq> salt_next"
  by (simp add: salt_start_def salt_next_def)

lemmas validation_defs =
  build_conditions_def add_leading_zeros_def add_starts_with_def add_trailing_zeros_def
  add_ends_with_def require_conditions_def initial_locals_def exclusive_pair_error_def
  truthy_int_def truthy_str_def hex_alphabet_def

lemma default_args_fields [simp]:
  "leading_zeros default_args = None" "starts_with default_args = None"
  "trailing_zeros default_args = None" "ends_with default_args = None"
  "case_sensitive default_args = False" "max_iterations default_args = 5000"
  by (simp_all add: default_args_def)

lemma build_leading_one:
  "build_conditions (default_args\<lparr>leading_zeros := Some 1\<rparr>)
     = Inr \<lparr>conditions = [HasEnoughLeadingZeros], pattern_size = None, warnings = []\<rparr>"
  by (simp add: validation_defs)

lemma leading_one_miss:
  "has_enough_leading_zeros (default_args\<lparr>leading_zeros := Some 1\<rparr>) address_miss = Inr False"
  by (simp add: has_enough_leading_zeros_def canonical_miss slice_upto_def py_max_def bytes_miss_def)

lemma leading_one_hit:
  "has_enough_leading_zeros (default_args\<lparr>leading_zeros := Some 1\<rparr>) address_hit = Inr True"
  by (simp add: has_enough_leading_zeros_def canonical_hit slice_upto_def py_max_def bytes_hit_def)

lemma run_leading_one:
  "mine (default_args\<lparr>leading_zeros := Some 1\<rparr>) example_deriver salt_start
     = (Inr (Found address_hit 1 salt_next), [salt_start, salt_next])"
  by (simp add: mine_def build_leading_one mine_loop.simps example_deriver_def salts_differ
      leading_one_miss leading_one_hit canonical_miss salt_of_miss)

lemma non_hex_zz: "non_hex (Some ''zz'')"
  by (simp add: non_hex_def hex_alphabet_def)

lemma non_positive_zero: "non_positive (Some 0)"
  by (simp add: non_positive_def)

lemma build_empty_starts_with:
  "build_conditions (default_args\<lparr>starts_with := Some []\<rparr>)
     = Inr \<lparr>conditions = [StartsWithPattern], pattern_size = Some 0, warnings = []\<rparr>"
  by (simp add: validation_defs)

lemma empty_starts_with_matches:
  "starts_with_pattern (default_args\<lparr>starts_with := Some []\<rparr>) (Some 0) address = Inr True"
  by (simp add: starts_with_pattern_def slice_upto_def lower_def)

lemma run_empty_starts_with:
  "mine (default_args\<lparr>starts_with := Some []\<rparr>) example_deriver salt_start
     = (Inr (Found address_miss 0 salt_start), [salt_start])"
  by (simp add: mine_def build_empty_starts_with mine_loop.simps example_deriver_def
      salts_differ empty_starts_with_matches)

lemma build_leading_and_starts:
  "build_conditions (default_args\<lparr>leading_zeros := Some 1, starts_with := Some ''00''\<rparr>)
     = Inr \<lparr>conditions = [HasEnoughLeadingZeros, StartsWithPattern], pattern_size = Some 2,
            warnings = []\<rparr>"
  by (simp add: validation_defs)

lemma leading_and_starts_conditions:
  "conditions_met (default_args\<lparr>leading_zeros := Some 1, starts_with := Some ''00''\<rparr>) (Some 2)
     [HasEnoughLeadingZeros, StartsWithPattern] address_miss = Inr False"
  "conditions_met (default_args\<lparr>leading_zeros := Some 1, starts_with := Some ''00''\<rparr>) (Some 2)
     [HasEnoughLeadingZeros, StartsWithPattern] address_hit = Inr True"
proof -
  let ?args = "default_args\<lparr>leading_zeros := Some 1, starts_with := Some ''00''\<rparr>"
  have "has_enough_leading_zeros ?args address_miss = Inr False"
    by (simp add: has_enough_leading_zeros_def canonical_miss slice_upto_def py_max_def
        bytes_miss_def)
  then show "conditions_met ?args (Some 2) [HasEnoughLeadingZeros, StartsWithPattern]
               address_miss = Inr False"
    by simp
  have "has_enough_leading_zeros ?args address_hit = Inr True"
    by (simp add: has_enough_leading_zeros_def canonical_hit slice_upto_def py_max_def
        bytes_hit_def)
  moreover have "starts_with_pattern ?args (Some 2) address_hit = Inr True"
    by (simp add: starts_with_pattern_def slice_upto_def address_hit_def lower_def
        lower_char_def upper_to_lower_def)
  ultimately show "conditions_met ?args (Some 2) [HasEnoughLeadingZeros, StartsWithPattern]
               address_hit = Inr True"
    by simp
qed

lemma build_trailing_and_ends:
  "build_conditions (default_args\<lparr>trailing_zeros := Some 1, ends_with := Some ''00''\<rparr>)
     = Inr \<lparr>conditions = [HasEnoughTrailingZeros, EndsWithPattern], pattern_size = Some 2,
            warnings = []\<rparr>"
  by (simp add: validation_defs)

lemma trailing_and_ends_conditions:
  "conditions_met (default_args\<lparr>trailing_zeros := Some 1, ends_with := Some ''00''\<rparr>) (Some 2)
     [HasEnoughTrailingZeros, EndsWithPattern] address_miss = Inr False"
  "conditions_met (default_args\<lparr>trailing_zeros := Some 1, ends_with := Some ''00''\<rparr>) (Some 2)
     [HasEnoughTrailingZeros, EndsWithPattern] address_hit = Inr True"
proof -
  let ?args = "default_args\<lparr>trailing_zeros := Some 1, ends_with := Some ''00''\<rparr>"
  have "has_enough_trailing_zeros ?args address_miss = Inr False"
    by (simp add: has_enough_trailing_zeros_def canonical_miss slice_from_def py_max_def
        bytes_miss_def)
  then show "conditions_met ?args (Some 2) [HasEnoughTrailingZeros, EndsWithPattern]
               address_miss = Inr False"
    by simp
  have "has_enough_trailing_zeros ?args address_hit = Inr True"
    by (simp add: has_enough_trailing_zeros_def canonical_hit slice_from_def py_max_def
        bytes_hit_def)
  moreover have "ends_with_pattern ?args (Some 2) address_hit = Inr True"
    by (simp add: ends_with_pattern_def slice_from_def address_hit_def lower_def
        lower_char_def upper_to_lower_def)
  ultimately show "conditions_met ?args (Some 2) [HasEnoughTrailingZeros, EndsWithPattern]
               address_hit = Inr True"
    by simp
qed

lemma build_starts_with_four:
  "set pattern \<subseteq> hex_alphabet \<Longrightarrow> length pattern = 4 \<Longrightarrow>
   build_conditions (default_args\<lparr>starts_with := Some pattern, max_iterations := 1\<rparr>)
     = Inr \<lparr>conditions = [StartsWithPattern], pattern_size = Some 4, warnings = []\<rparr>"
  by (simp add: build_conditions_def add_leading_zeros_def add_starts_with_def
      add_trailing_zeros_def add_ends_with_def require_conditions_def initial_locals_def)

lemma starts_with_lower_pattern:
  "starts_with_pattern (default_args\<lparr>starts_with := Some ''00ab'', max_iterations := 1\<rparr>)
     (Some 4) address_miss = Inr False"
  "starts_with_pattern (default_args\<lparr>starts_with := Some ''00ab'', max_iterations := 1\<rparr>)
     (Some 4) address_hit = Inr True"
  by (simp_all add: starts_with_pattern_def slice_upto_def address_hit_def address_miss_def
      lower_def lower_char_def upper_to_lower_def)

lemma starts_with_upper_pattern:
  "starts_with_pattern (default_args\<lparr>starts_with := Some ''00AB'', max_iterations := 1\<rparr>)
     (Some 4) address_miss = Inr False"
  "starts_with_pattern (default_args\<lparr>starts_with := Some ''00AB'', max_iterations := 1\<rparr>)
     (Some 4) address_hit = Inr False"
  by (simp_all add: starts_with_pattern_def slice_upto_def address_hit_def address_miss_def
      lower_def lower_char_def upper_to_lower_def)

lemma build_starts_alone:
  "build_conditions (default_args\<lparr>starts_with := Some ''00'', max_iterations := 1\<rparr>)
     = Inr \<lparr>conditions = [StartsWithPattern], pattern_size = Some 2, warnings = []\<rparr>"
  by (simp add: validation_defs)

lemma build_ends_alone:
  "build_conditions (default_args\<lparr>ends_with := Some ''cd00'', max_iterations := 1\<rparr>)
     = Inr \<lparr>conditions = [EndsWithPattern], pattern_size = Some 4, warnings = []\<rparr>"
  by (simp add: validation_defs)

lemma build_starts_and_ends:
  "build_conditions
     (default_args\<lparr>starts_with := Some ''00'', ends_with := Some ''cd00'', max_iterations := 1\<rparr>)
     = Inr \<lparr>conditions = [StartsWithPattern, EndsWithPattern], pattern_size = Some 4,
            warnings = []\<rparr>"
  by (simp add: validation_defs)

lemma starts_alone_met:
  "conditions_met (default_args\<lparr>starts_with := Some ''00'', max_iterations := 1\<rparr>) (Some 2)
     [StartsWithPattern] address_miss = Inr False"
  "conditions_met (default_args\<lparr>starts_with := Some ''00'', max_iterations := 1\<rparr>) (Some 2)
     [StartsWithPattern] address_hit = Inr True"
  by (simp_all add: starts_with_pattern_def slice_upto_def address_hit_def address_miss_def
      lower_def lower_char_def upper_to_lower_def)

lemma ends_alone_met:
  "conditions_met (default_args\<lparr>ends_with := Some ''cd00'', max_iterations := 1\<rparr>) (Some 4)
     [EndsWithPattern] address_miss = Inr False"
  "conditions_met (default_args\<lparr>ends_with := Some ''cd00'', max_iterations := 1\<rparr>) (Some 4)
     [EndsWithPattern] address_hit = Inr True"
  by (simp_all add: ends_with_pattern_def slice_from_def address_hit_def address_miss_def
      lower_def lower_char_def upper_to_lower_def)

lemma starts_and_ends_met:
  "conditions_met
     (default_args\<lparr>starts_with := Some ''00'', ends_with := Some ''cd00'', max_iterations := 1\<rparr>)
     (Some 4) [StartsWithPattern, EndsWithPattern] address_miss = Inr False"
  "conditions_met
     (default_args\<lparr>starts_with := Some ''00'', ends_with := Some ''cd00'', max_iterations := 1\<rparr>)
     (Some 4) [StartsWithPattern, EndsWithPattern] address_hit = Inr False"
  by (simp_all add: starts_with_pattern_def slice_upto_def address_hit_def address_miss_def
      lower_def lower_char_def upper_to_lower_def)

lemma exhausted_after_one:
  "exhausted_message 1 = ''Could not find solution in 1 iterations.''"
  by (simp add: exhausted_message_def str_int_def)

section \<open>Conditions never raise once validation has passed\<close>

lemma conditions_met_all:
  assumes "\<forall>c \<in> set cs. \<exists>b. call_condition args psize c address = Inr b"
  shows "conditions_met args psize cs address
         = Inr (\<forall>c \<in> set cs. call_condition args psize c address = Inr True)"
  using assms
proof (induction cs)
  case Nil
  then show ?case by simp
next
  case (Cons c cs)
  then obtain b where b: "call_condition args psize c address = Inr b"
    by auto
  show ?case
  proof (cases b)
    case True
    with Cons b show ?thesis by simp
  next
    case False
    with b show ?thesis by simp
  qed
qed

lemma call_condition_total:
  assumes build: "build_conditions args = Inr loc"
    and canon: "to_canonical_address address = Inr bs"
    and active: "c \<in> set (conditions loc)"
  shows "\<exists>b. call_condition args (pattern_size loc) c address = Inr b"
proof -
  note acc = build_accepts [OF build]
  have len: "length bs = 20"
    using canon by (rule to_canonical_address_length)
  have req: "c \<in> set (requested args)"
    using active acc by simp
  show ?thesis
  proof (cases c)
    case HasEnoughLeadingZeros
    then obtain n where n: "leading_zeros args = Some n" "0 < n"
      using req acc by (auto simp: requested_def non_positive_def split: if_splits)
    then have "slice_upto bs (leading_zeros args) \<noteq> []"
      using len by (auto simp: slice_upto_def)
    then obtain m where "py_max (slice_upto bs (leading_zeros args)) = Inr m"
      using py_max_nonempty by blast
    then show ?thesis
      by (simp add: HasEnoughLeadingZeros has_enough_leading_zeros_def canon)
  next
    case StartsWithPattern
    then obtain k where "pattern_size loc = Some k"
      using req acc
      by (auto simp: requested_def final_pattern_size_def split: if_splits option.splits)
    then show ?thesis
      by (simp add: StartsWithPattern starts_with_pattern_def Let_def)
  next
    case HasEnoughTrailingZeros
    then obtain n where n: "trailing_zeros args = Some n" "0 < n"
      using req acc by (auto simp: requested_def non_positive_def split: if_splits)
    then have "slice_from bs (- n) \<noteq> []"
      using len by (auto simp: slice_from_def)
    then obtain m where "py_max (slice_from bs (- n)) = Inr m"
      using py_max_nonempty by blast
    then show ?thesis
      by (simp add: HasEnoughTrailingZeros has_enough_trailing_zeros_def canon n(1))
  next
    case EndsWithPattern
    then obtain k where "pattern_size loc = Some k"
      using req acc
      by (auto simp: requested_def final_pattern_size_def split: if_splits option.splits)
    then show ?thesis
      by (simp add: EndsWithPattern ends_with_pattern_def Let_def)
  qed
qed

lemma conditions_met_total:
  assumes "build_conditions args = Inr loc" and "to_canonical_address address = Inr bs"
    and "set cs \<subseteq> set (conditions loc)"
  shows "conditions_met args (pattern_size loc) cs address
         = Inr (\<forall>c \<in> set cs. call_condition args (pattern_size loc) c address = Inr True)"
  using assms call_condition_total [OF assms(1,2)]
  by (intro conditions_met_all) blast

lemma mine_rejected: "build_conditions args = Inl e \<Longrightarrow> mine args ca salt0 = (Inl e, [])"
  by (simp add: mine_def)

lemma requested_nonempty:
  "starts_with args \<noteq> None \<or> ends_with args \<noteq> None \<Longrightarrow> requested args \<noteq> []"
  by (auto simp: requested_def)

section \<open>Properties of the command\<close>

text \<open>
  C6. For a well-formed address with canonical bytes \<open>bs\<close> (always 20 of them) and a count
  \<open>n\<close> from 1 to 20, the leading-zeros closure returns whether the first \<open>n\<close> bytes are
  all 0, and the trailing-zeros closure whether the last \<open>n\<close> bytes are all 0.
\<close>

theorem zero_byte_conditions:
  assumes "to_canonical_address address = Inr bs" and "1 \<le> n" and "n \<le> 20"
  shows "length bs = 20
    \<and> has_enough_leading_zeros (args\<lparr>leading_zeros := Some n\<rparr>) address
        = Inr (\<forall>i < nat n. bs ! i = 0)
    \<and> has_enough_trailing_zeros (args\<lparr>trailing_zeros := Some n\<rparr>) address
        = Inr (\<forall>i < nat n. bs ! (20 - nat n + i) = 0)"
proof -
  have len: "length bs = 20"
    using assms(1) by (rule to_canonical_address_length)
  have k: "nat n \<le> length bs" "0 < nat n"
    using assms(2,3) len by auto
  have lead_slice: "slice_upto bs (Some n) = take (nat n) bs"
    using assms(2) by (simp add: slice_upto_def)
  have trail_slice: "slice_from bs (- n) = drop (length bs - nat n) bs"
    using assms(2,3) len by (simp add: slice_from_def nat_diff_distrib')
  have ne1: "take (nat n) bs \<noteq> []" and ne2: "drop (length bs - nat n) bs \<noteq> []"
    using k len by auto
  obtain m1 where m1: "py_max (take (nat n) bs) = Inr m1"
    using py_max_nonempty [OF ne1] by blast
  obtain m2 where m2: "py_max (drop (length bs - nat n) bs) = Inr m2"
    using py_max_nonempty [OF ne2] by blast
  have lead: "has_enough_leading_zeros (args\<lparr>leading_zeros := Some n\<rparr>) address
        = Inr (\<forall>i < nat n. bs ! i = 0)"
    using py_max_zero [OF ne1 m1] all_take_nth [OF k(1), of "\<lambda>b. b = 0"]
    by (simp add: has_enough_leading_zeros_def assms(1) lead_slice m1)
  have trail: "has_enough_trailing_zeros (args\<lparr>trailing_zeros := Some n\<rparr>) address
        = Inr (\<forall>i < nat n. bs ! (20 - nat n + i) = 0)"
  proof -
    have "(m2 = 0) = (\<forall>i < nat n. bs ! (length bs - nat n + i) = 0)"
      using py_max_zero [OF ne2 m2] all_drop_nth [OF k(1), of "\<lambda>b. b = 0"] by simp
    moreover have "has_enough_trailing_zeros (args\<lparr>trailing_zeros := Some n\<rparr>) address = Inr (m2 = 0)"
      by (simp add: has_enough_trailing_zeros_def assms(1) trail_slice m2 del: One_nat_def)
    ultimately show ?thesis
      by (simp only: len)
  qed
  from len lead trail show ?thesis by simp
qed

theorem zero_byte_conditions_witness:
  "to_canonical_address address_hit = Inr bytes_hit \<and> (1::int) \<le> 2 \<and> (2::int) \<le> 20
   \<and> length bytes_hit = 20
   \<and> has_enough_leading_zeros (default_args\<lparr>leading_zeros := Some 2\<rparr>) address_hit = Inr False
   \<and> has_enough_trailing_zeros (default_args\<lparr>trailing_zeros := Some 2\<rparr>) address_hit = Inr False"
proof -
  have two: "nat 2 = Suc (Suc 0)"
    by simp
  have "\<not> (\<forall>i < nat 2. bytes_hit ! i = 0)"
    unfolding two by (simp add: bytes_hit_def All_less_Suc)
  moreover have "\<not> (\<forall>i < nat 2. bytes_hit ! (20 - nat 2 + i) = 0)"
    unfolding two by (simp add: bytes_hit_def All_less_Suc)
  ultimately show ?thesis
    using zero_byte_conditions [OF canonical_hit, of 2 default_args] canonical_hit
    by simp
qed


text \<open>
  C4. With a budget \<open>max_iterations = k \<ge> 0\<close>, options that pass validation and a deriver
  that returns well-formed addresses, the command returns: either it has found an
  address, or it raises the usage error that reports \<open>k\<close> iterations; and
  \<open>compute_address\<close> has been called at most \<open>k + 1\<close> times. (\<open>mine_loop\<close> is a total
  function: its termination is proved with the measure \<open>max_iterations - iterations\<close>.)
\<close>

theorem mine_halts_within_budget:
  assumes "0 \<le> max_iterations args"
    and "build_conditions args = Inr loc"
    and "\<forall>salt. \<exists>address bs. compute_address salt = Inr address
                    \<and> to_canonical_address address = Inr bs"
  shows "\<exists>outcome derived.
           mine args compute_address salt0 = (outcome, derived)
         \<and> ((\<exists>address n salt. outcome = Inr (Found address n salt))
            \<or> outcome = Inl (UsageError (exhausted_message (max_iterations args))))
         \<and> length derived \<le> nat (max_iterations args) + 1"
proof -
  let ?met = "conditions_met args (pattern_size loc) (conditions loc)"
  let ?run = "mine_loop compute_address ?met (max_iterations args) salt0 0"
  have run: "mine args compute_address salt0 = ?run"
    by (simp add: mine_def assms(2))
  have total: "\<exists>a bs b. compute_address salt = Inr a \<and> to_canonical_address a = Inr bs
                 \<and> ?met a = Inr b" for salt
  proof -
    obtain a bs where a: "compute_address salt = Inr a" "to_canonical_address a = Inr bs"
      using assms(3) by blast
    then show ?thesis
      using conditions_met_total [OF assms(2) a(2) subset_refl] by blast
  qed
  have "(\<exists>a n x. fst ?run = Inr (Found a n x))
      \<or> fst ?run = Inl (UsageError (exhausted_message (max_iterations args)))"
    using total assms(1) by (rule mine_loop_outcome)
  moreover have "length (snd ?run) \<le> nat (max_iterations args) + 1"
    using mine_loop_calls_bound [of compute_address ?met "max_iterations args" salt0 0] by simp
  ultimately show ?thesis
    unfolding run by (cases ?run) auto
qed

theorem mine_halts_within_budget_witness:
  "0 \<le> max_iterations (default_args\<lparr>leading_zeros := Some 1\<rparr>)
   \<and> build_conditions (default_args\<lparr>leading_zeros := Some 1\<rparr>)
       = Inr \<lparr>conditions = [HasEnoughLeadingZeros], pattern_size = None, warnings = []\<rparr>
   \<and> (\<forall>salt. \<exists>address bs. example_deriver salt = Inr address
          \<and> to_canonical_address address = Inr bs)
   \<and> mine (default_args\<lparr>leading_zeros := Some 1\<rparr>) example_deriver salt_start
       = (Inr (Found address_hit 1 salt_next), [salt_start, salt_next])
   \<and> length (snd (mine (default_args\<lparr>leading_zeros := Some 1\<rparr>) example_deriver salt_start))
       \<le> nat (max_iterations (default_args\<lparr>leading_zeros := Some 1\<rparr>)) + 1"
proof -
  let ?args = "default_args\<lparr>leading_zeros := Some 1\<rparr>"
  have budget: "0 \<le> max_iterations ?args"
    by simp
  have total: "\<forall>salt. \<exists>address bs. example_deriver salt = Inr address
                 \<and> to_canonical_address address = Inr bs"
    by (simp add: example_deriver_def canonical_miss canonical_hit)
  show ?thesis
    using mine_halts_within_budget [OF budget build_leading_one total, of salt_start]
      budget build_leading_one total run_leading_one
    by auto
qed

text \<open>
  C10. When the command reports an address as found after \<open>n\<close> iterations, \<open>n\<close> is the
  number of candidates derived before the reported one, each of them was rejected by the
  conditions, and the number of derivation calls is \<open>n + 1\<close>. A match on the first
  candidate is therefore reported after 0 iterations.
\<close>

theorem found_iterations_count_rejections:
  assumes "mine args compute_address salt0 = (Inr (Found address n salt), derived)"
  shows "\<exists>loc. build_conditions args = Inr loc
         \<and> n = int (length (butlast derived))
         \<and> int (length derived) = n + 1
         \<and> last derived = salt
         \<and> compute_address salt = Inr address
         \<and> conditions_met args (pattern_size loc) (conditions loc) address = Inr True
         \<and> (\<forall>s \<in> set (butlast derived). \<exists>a.
               compute_address s = Inr a
             \<and> conditions_met args (pattern_size loc) (conditions loc) a = Inr False)"
proof -
  from assms obtain loc where loc: "build_conditions args = Inr loc"
    by (cases "build_conditions args") (auto simp: mine_def)
  let ?met = "conditions_met args (pattern_size loc) (conditions loc)"
  have run: "mine_loop compute_address ?met (max_iterations args) salt0 0
             = (Inr (Found address n salt), derived)"
    using assms by (simp add: mine_def loc)
  have ne: "derived \<noteq> []"
    using mine_loop_first [of compute_address ?met "max_iterations args" salt0 0] run by auto
  then have len: "int (length (butlast derived)) = int (length derived) - 1"
    by (cases derived) simp_all
  show ?thesis
    using mine_loop_found [OF run] loc len by simp
qed

theorem found_iterations_count_rejections_witness:
  "mine (default_args\<lparr>leading_zeros := Some 1\<rparr>) example_deriver salt_start
     = (Inr (Found address_hit 1 salt_next), [salt_start, salt_next])
   \<and> (1::int) = int (length (butlast [salt_start, salt_next]))
   \<and> int (length [salt_start, salt_next]) = 1 + 1
   \<and> example_deriver salt_next = Inr address_hit
   \<and> conditions_met (default_args\<lparr>leading_zeros := Some 1\<rparr>) None [HasEnoughLeadingZeros]
        address_hit = Inr True
   \<and> conditions_met (default_args\<lparr>leading_zeros := Some 1\<rparr>) None [HasEnoughLeadingZeros]
        address_miss = Inr False"
  using found_iterations_count_rejections [OF run_leading_one]
  by (simp add: build_leading_one example_deriver_def salts_differ run_leading_one
      leading_one_miss leading_one_hit)

text \<open>
  C2, as amended. In iteration \<open>i\<close> of a run, if the candidate address is rejected by the
  conditions and the budget is not exhausted (\<open>i < max_iterations\<close>), there is a next
  derivation call and its salt is the first 11 bytes (indices 0 to 10, the high-order end)
  of the canonical 20 bytes of the rejected address.
\<close>

theorem next_salt_is_leading_bytes:
  assumes "build_conditions args = Inr loc"
    and "i < length (snd (mine args compute_address salt0))"
    and "compute_address (snd (mine args compute_address salt0) ! i) = Inr address"
    and "conditions_met args (pattern_size loc) (conditions loc) address = Inr False"
    and "int i < max_iterations args"
    and "to_canonical_address address = Inr bs"
  shows "Suc i < length (snd (mine args compute_address salt0))
       \<and> snd (mine args compute_address salt0) ! Suc i = take 11 bs
       \<and> length (take 11 bs) = 11"
proof -
  let ?met = "conditions_met args (pattern_size loc) (conditions loc)"
  have run: "mine args compute_address salt0
             = mine_loop compute_address ?met (max_iterations args) salt0 0"
    by (simp add: mine_def assms(1))
  have "length bs = 20"
    using assms(6) by (rule to_canonical_address_length)
  moreover have "slice_upto bs (Some 11) = take 11 bs"
    by (simp add: slice_upto_def)
  ultimately show ?thesis
    using mine_loop_walk [of i compute_address ?met "max_iterations args" salt0 0 address bs]
      assms(2-6) by (simp add: run)
qed

theorem next_salt_is_leading_bytes_witness:
  "build_conditions (default_args\<lparr>leading_zeros := Some 1\<rparr>)
     = Inr \<lparr>conditions = [HasEnoughLeadingZeros], pattern_size = None, warnings = []\<rparr>
   \<and> 0 < length (snd (mine (default_args\<lparr>leading_zeros := Some 1\<rparr>) example_deriver salt_start))
   \<and> example_deriver
        (snd (mine (default_args\<lparr>leading_zeros := Some 1\<rparr>) example_deriver salt_start) ! 0)
       = Inr address_miss
   \<and> conditions_met (default_args\<lparr>leading_zeros := Some 1\<rparr>) None [HasEnoughLeadingZeros]
        address_miss = Inr False
   \<and> int 0 < max_iterations (default_args\<lparr>leading_zeros := Some 1\<rparr>)
   \<and> to_canonical_address address_miss = Inr bytes_miss
   \<and> snd (mine (default_args\<lparr>leading_zeros := Some 1\<rparr>) example_deriver salt_start) ! Suc 0
       = take 11 bytes_miss
   \<and> take 11 bytes_miss = [1, 2, 3, 4, 5, 6, 7, 8, 9, 10, 11]"
proof -
  let ?args = "default_args\<lparr>leading_zeros := Some 1\<rparr>"
  let ?loc = "\<lparr>conditions = [HasEnoughLeadingZeros], pattern_size = None, warnings = []\<rparr>"
  have h2: "0 < length (snd (mine ?args example_deriver salt_start))"
    by (simp add: run_leading_one)
  have h3: "example_deriver (snd (mine ?args example_deriver salt_start) ! 0) = Inr address_miss"
    by (simp add: run_leading_one example_deriver_def salts_differ)
  have h4: "conditions_met ?args (pattern_size ?loc) (conditions ?loc) address_miss = Inr False"
    by (simp add: leading_one_miss)
  have h5: "int 0 < max_iterations ?args"
    by simp
  have "take 11 bytes_miss = [1, 2, 3, 4, 5, 6, 7, 8, 9, 10, 11]"
    by (simp add: bytes_miss_def)
  then show ?thesis
    using next_salt_is_leading_bytes [OF build_leading_one h2 h3 h4 h5 canonical_miss]
      build_leading_one h2 h3 h4 h5 canonical_miss
    by simp
qed

text \<open>
  C2, as stated. The low-order 11 bytes of an address are its last 11 bytes (Python
  \<open>bs[-11:]\<close>). In the run below the first candidate is rejected and the next salt is
  bytes 0 to 10 of it, which differ from bytes 9 to 19.
\<close>

theorem next_salt_not_trailing_bytes:
  "example_deriver salt_start = Inr address_miss
   \<and> conditions_met (default_args\<lparr>leading_zeros := Some 1\<rparr>) None [HasEnoughLeadingZeros]
        address_miss = Inr False
   \<and> to_canonical_address address_miss = Inr bytes_miss
   \<and> snd (mine (default_args\<lparr>leading_zeros := Some 1\<rparr>) example_deriver salt_start)
       = [salt_start, salt_next]
   \<and> salt_next = [1, 2, 3, 4, 5, 6, 7, 8, 9, 10, 11]
   \<and> slice_from bytes_miss (- 11) = [10, 11, 12, 13, 14, 15, 16, 17, 18, 19, 20]
   \<and> snd (mine (default_args\<lparr>leading_zeros := Some 1\<rparr>) example_deriver salt_start) ! 1
       \<noteq> slice_from bytes_miss (- 11)"
proof -
  have low: "slice_from bytes_miss (- 11) = [10, 11, 12, 13, 14, 15, 16, 17, 18, 19, 20]"
    by (simp add: slice_from_def bytes_miss_def)
  have "salt_next \<noteq> slice_from bytes_miss (- 11)"
    unfolding low by (simp add: salt_next_def)
  moreover have "salt_next = [1, 2, 3, 4, 5, 6, 7, 8, 9, 10, 11]"
    by (simp add: salt_next_def)
  moreover have "example_deriver salt_start = Inr address_miss"
    by (simp add: example_deriver_def salts_differ)
  ultimately show ?thesis
    using low by (simp add: run_leading_one leading_one_miss canonical_miss)
qed

text \<open>
  C8, as amended. When a starts-with or ends-with pattern has a character outside the hex
  alphabet, the command fails with a \<open>click.BadOptionUsage\<close> and \<open>compute_address\<close> is
  never called. The options are validated in the order leading-zeros, starts-with,
  trailing-zeros, ends-with, and the error is that of the first invalid one:
  \<open>Cannot be less than 1\<close> for a leading-zeros count that is not positive; otherwise
  \<open>Must be valid hex\<close> for a starts-with pattern that is not hex; otherwise
  \<open>Cannot be less than 1\<close> for a trailing-zeros count that is not positive; otherwise
  \<open>Must be valid hex\<close> for the ends-with pattern.
\<close>

theorem non_hex_pattern_rejected:
  assumes "non_hex (starts_with args) \<or> non_hex (ends_with args)"
  shows "mine args compute_address salt0 =
     (Inl (if non_positive (leading_zeros args) then
             BadOptionUsage ''leading_zeros'' ''Cannot be less than 1''
           else if non_hex (starts_with args) then
             BadOptionUsage ''starts_with'' ''Must be valid hex''
           else if non_positive (trailing_zeros args) then
             BadOptionUsage ''trailing_zeros'' ''Cannot be less than 1''
           else BadOptionUsage ''ends_with'' ''Must be valid hex''), [])"
  using assms
  by (auto simp: build_rejects_leading build_rejects_starts_with build_rejects_trailing
      build_rejects_ends_with intro!: mine_rejected)

theorem non_hex_pattern_rejected_witness:
  "non_hex (starts_with (default_args\<lparr>starts_with := Some ''zz''\<rparr>))
   \<and> mine (default_args\<lparr>starts_with := Some ''zz''\<rparr>) example_deriver salt_start
       = (Inl (BadOptionUsage ''starts_with'' ''Must be valid hex''), [])"
  using non_hex_pattern_rejected [of "default_args\<lparr>starts_with := Some ''zz''\<rparr>"
      example_deriver salt_start]
  by (simp add: non_hex_zz non_positive_def)

text \<open>
  C8, as stated. A non-hex pattern given together with \<open>--leading-zeros 0\<close> fails with the
  message of the zero count, not with \<open>Must be valid hex\<close>.
\<close>

theorem non_hex_pattern_other_message:
  "non_hex (starts_with (default_args\<lparr>leading_zeros := Some 0, starts_with := Some ''zz''\<rparr>))
   \<and> mine (default_args\<lparr>leading_zeros := Some 0, starts_with := Some ''zz''\<rparr>)
         example_deriver salt_start
       = (Inl (BadOptionUsage ''leading_zeros'' ''Cannot be less than 1''), [])
   \<and> ''Cannot be less than 1'' \<noteq> ''Must be valid hex''"
  by (simp add: non_hex_zz mine_def validation_defs)

text \<open>
  C9, as amended. When the leading-zeros or the trailing-zeros count is zero or negative,
  the command fails with a \<open>click.BadOptionUsage\<close> and \<open>compute_address\<close> is never called.
  A non-positive leading-zeros count always reports \<open>Cannot be less than 1\<close>; a
  non-positive trailing-zeros count reports it unless the starts-with pattern, which is
  validated first, is not hex.
\<close>

theorem non_positive_count_rejected:
  assumes "non_positive (leading_zeros args) \<or> non_positive (trailing_zeros args)"
  shows "mine args compute_address salt0 =
     (Inl (if non_positive (leading_zeros args) then
             BadOptionUsage ''leading_zeros'' ''Cannot be less than 1''
           else if non_hex (starts_with args) then
             BadOptionUsage ''starts_with'' ''Must be valid hex''
           else BadOptionUsage ''trailing_zeros'' ''Cannot be less than 1''), [])"
  using assms
  by (auto simp: build_rejects_leading build_rejects_starts_with build_rejects_trailing
      intro!: mine_rejected)

theorem non_positive_count_rejected_witness:
  "non_positive (leading_zeros (default_args\<lparr>leading_zeros := Some 0\<rparr>))
   \<and> mine (default_args\<lparr>leading_zeros := Some 0\<rparr>) example_deriver salt_start
       = (Inl (BadOptionUsage ''leading_zeros'' ''Cannot be less than 1''), [])"
  using non_positive_count_rejected [of "default_args\<lparr>leading_zeros := Some 0\<rparr>"
      example_deriver salt_start]
  by (simp add: non_positive_zero)

text \<open>
  C9, as stated. \<open>--trailing-zeros 0\<close> given together with a non-hex starts-with pattern
  fails with \<open>Must be valid hex\<close>, not with \<open>Cannot be less than 1\<close>.
\<close>

theorem non_positive_count_other_message:
  "non_positive (trailing_zeros (default_args\<lparr>starts_with := Some ''zz'', trailing_zeros := Some 0\<rparr>))
   \<and> mine (default_args\<lparr>starts_with := Some ''zz'', trailing_zeros := Some 0\<rparr>)
         example_deriver salt_start
       = (Inl (BadOptionUsage ''starts_with'' ''Must be valid hex''), [])
   \<and> ''Must be valid hex'' \<noteq> ''Cannot be less than 1''"
  by (simp add: non_positive_zero mine_def validation_defs)

text \<open>
  C5, as amended. An empty starts-with or ends-with pattern is accepted: validation only
  rejects characters outside the hex alphabet. When the other options are valid, the
  closures of all requested options are built and the search starts, so that
  \<open>compute_address\<close> is called with the initial salt.
\<close>

theorem empty_pattern_accepted:
  assumes "starts_with args = Some [] \<or> ends_with args = Some []"
    and "\<not> non_positive (leading_zeros args)" and "\<not> non_positive (trailing_zeros args)"
    and "\<not> non_hex (starts_with args)" and "\<not> non_hex (ends_with args)"
  shows "\<exists>loc rest.
           build_conditions args = Inr loc
         \<and> conditions loc = requested args \<and> conditions loc \<noteq> []
         \<and> snd (mine args compute_address salt0) = salt0 # rest"
proof -
  have "requested args \<noteq> []"
    using assms(1) by (intro requested_nonempty) auto
  then obtain loc where loc: "build_conditions args = Inr loc"
    using build_total [OF assms(2,4,3,5)] by blast
  let ?met = "conditions_met args (pattern_size loc) (conditions loc)"
  obtain rest where
    "snd (mine_loop compute_address ?met (max_iterations args) salt0 0) = salt0 # rest"
    using mine_loop_first by blast
  then have "snd (mine args compute_address salt0) = salt0 # rest"
    by (simp add: mine_def loc)
  then show ?thesis
    using loc build_accepts [OF loc] by blast
qed

theorem empty_pattern_accepted_witness:
  "starts_with (default_args\<lparr>starts_with := Some []\<rparr>) = Some []
   \<and> \<not> non_positive (leading_zeros (default_args\<lparr>starts_with := Some []\<rparr>))
   \<and> \<not> non_positive (trailing_zeros (default_args\<lparr>starts_with := Some []\<rparr>))
   \<and> \<not> non_hex (starts_with (default_args\<lparr>starts_with := Some []\<rparr>))
   \<and> \<not> non_hex (ends_with (default_args\<lparr>starts_with := Some []\<rparr>))
   \<and> build_conditions (default_args\<lparr>starts_with := Some []\<rparr>)
       = Inr \<lparr>conditions = [StartsWithPattern], pattern_size = Some 0, warnings = []\<rparr>
   \<and> hd (snd (mine (default_args\<lparr>starts_with := Some []\<rparr>) example_deriver salt_start))
       = salt_start"
proof -
  let ?args = "default_args\<lparr>starts_with := Some []\<rparr>"
  have h1: "starts_with ?args = Some [] \<or> ends_with ?args = Some []"
    and h2: "\<not> non_positive (leading_zeros ?args)"
    and h3: "\<not> non_positive (trailing_zeros ?args)"
    and h4: "\<not> non_hex (starts_with ?args)"
    and h5: "\<not> non_hex (ends_with ?args)"
    by (simp_all add: non_positive_def non_hex_def)
  show ?thesis
    using empty_pattern_accepted [OF h1 h2 h3 h4 h5, of example_deriver salt_start]
      h2 h3 h4 h5 build_empty_starts_with
    by auto
qed

text \<open>
  C5, as stated. With \<open>--starts-with ""\<close> the command raises nothing: the empty
  pattern matches the first candidate, which is reported after one derivation call.
\<close>

theorem empty_pattern_not_rejected:
  "mine (default_args\<lparr>starts_with := Some []\<rparr>) example_deriver salt_start
     = (Inr (Found address_miss 0 salt_start), [salt_start])"
  by (rule run_empty_starts_with)

text \<open>
  C7. The claim does not hold of the code. Both pattern closures read the one variable
  \<open>pattern_size\<close> when they are called, and the ends-with block assigns it last, so with
  both patterns requested the starts-with closure slices the address with the length of
  the ends-with pattern. For the address below, \<open>--starts-with 00\<close> alone is met and
  \<open>--ends-with cd00\<close> alone is met, but the two together are not: the starts-with closure
  compares \<open>00ab\<close> with \<open>00\<close>. The runs of the command differ in the same way.
\<close>

theorem shared_pattern_size_breaks_conjunction:
  "build_conditions (default_args\<lparr>starts_with := Some ''00'', max_iterations := 1\<rparr>)
     = Inr \<lparr>conditions = [StartsWithPattern], pattern_size = Some 2, warnings = []\<rparr>
   \<and> conditions_met (default_args\<lparr>starts_with := Some ''00'', max_iterations := 1\<rparr>) (Some 2)
        [StartsWithPattern] address_hit = Inr True
   \<and> build_conditions (default_args\<lparr>ends_with := Some ''cd00'', max_iterations := 1\<rparr>)
     = Inr \<lparr>conditions = [EndsWithPattern], pattern_size = Some 4, warnings = []\<rparr>
   \<and> conditions_met (default_args\<lparr>ends_with := Some ''cd00'', max_iterations := 1\<rparr>) (Some 4)
        [EndsWithPattern] address_hit = Inr True
   \<and> build_conditions
        (default_args\<lparr>starts_with := Some ''00'', ends_with := Some ''cd00'',
                       max_iterations := 1\<rparr>)
     = Inr \<lparr>conditions = [StartsWithPattern, EndsWithPattern], pattern_size = Some 4,
            warnings = []\<rparr>
   \<and> conditions_met
        (default_args\<lparr>starts_with := Some ''00'', ends_with := Some ''cd00'',
                       max_iterations := 1\<rparr>)
        (Some 4) [StartsWithPattern, EndsWithPattern] address_hit = Inr False
   \<and> starts_with_pattern
        (default_args\<lparr>starts_with := Some ''00'', ends_with := Some ''cd00'',
                       max_iterations := 1\<rparr>)
        (Some 4) address_hit = Inr False
   \<and> mine (default_args\<lparr>starts_with := Some ''00'', max_iterations := 1\<rparr>)
        example_deriver salt_start
     = (Inr (Found address_hit 1 salt_next), [salt_start, salt_next])
   \<and> mine (default_args\<lparr>ends_with := Some ''cd00'', max_iterations := 1\<rparr>)
        example_deriver salt_start
     = (Inr (Found address_hit 1 salt_next), [salt_start, salt_next])
   \<and> mine
        (default_args\<lparr>starts_with := Some ''00'', ends_with := Some ''cd00'',
                       max_iterations := 1\<rparr>)
        example_deriver salt_start
     = (Inl (UsageError ''Could not find solution in 1 iterations.''), [salt_start, salt_next])"
proof -
  let ?both = "default_args\<lparr>starts_with := Some ''00'', ends_with := Some ''cd00'',
                 max_iterations := 1\<rparr>"
  have closure: "starts_with_pattern ?both (Some 4) address_hit = Inr False"
    by (simp add: starts_with_pattern_def slice_upto_def address_hit_def lower_def
        lower_char_def upper_to_lower_def)
  have starts_run:
    "mine (default_args\<lparr>starts_with := Some ''00'', max_iterations := 1\<rparr>)
        example_deriver salt_start
     = (Inr (Found address_hit 1 salt_next), [salt_start, salt_next])"
    by (simp add: mine_def build_starts_alone mine_loop.simps example_deriver_def salts_differ
        starts_alone_met canonical_miss salt_of_miss del: conditions_met.simps)
  have ends_run:
    "mine (default_args\<lparr>ends_with := Some ''cd00'', max_iterations := 1\<rparr>)
        example_deriver salt_start
     = (Inr (Found address_hit 1 salt_next), [salt_start, salt_next])"
    by (simp add: mine_def build_ends_alone mine_loop.simps example_deriver_def salts_differ
        ends_alone_met canonical_miss salt_of_miss del: conditions_met.simps)
  have both_run:
    "mine ?both example_deriver salt_start
     = (Inl (UsageError ''Could not find solution in 1 iterations.''), [salt_start, salt_next])"
    by (simp add: mine_def build_starts_and_ends mine_loop.simps example_deriver_def
        salts_differ starts_and_ends_met canonical_miss salt_of_miss exhausted_after_one
        del: conditions_met.simps)
  show ?thesis
    using build_starts_alone build_ends_alone build_starts_and_ends starts_alone_met(2)
      ends_alone_met(2) starts_and_ends_met(2) closure starts_run ends_run both_run
    by (simp del: conditions_met.simps)
qed

text \<open>
  C1. The claim does not hold of the code: with both options of an exclusive pair set, the
  \<open>click.UsageError\<close> is built but not raised, both closures are appended and the search
  runs. Evaluation at \<open>--leading-zeros 1 --starts-with 00\<close> and at
  \<open>--trailing-zeros 1 --ends-with 00\<close>.
\<close>

theorem exclusive_pair_not_enforced:
  "exclusive_pair_error (default_args\<lparr>leading_zeros := Some 1, starts_with := Some ''00''\<rparr>)
     = Some (UsageError ''Cannot use both `--leading-zeros` and `--starts-with` together.'')
   \<and> build_conditions (default_args\<lparr>leading_zeros := Some 1, starts_with := Some ''00''\<rparr>)
     = Inr \<lparr>conditions = [HasEnoughLeadingZeros, StartsWithPattern], pattern_size = Some 2,
            warnings = []\<rparr>
   \<and> mine (default_args\<lparr>leading_zeros := Some 1, starts_with := Some ''00''\<rparr>)
        example_deriver salt_start
     = (Inr (Found address_hit 1 salt_next), [salt_start, salt_next])
   \<and> exclusive_pair_error (default_args\<lparr>trailing_zeros := Some 1, ends_with := Some ''00''\<rparr>)
     = Some (UsageError ''Cannot use both `--trailing-zeros` and `--ends-with` together.'')
   \<and> mine (default_args\<lparr>trailing_zeros := Some 1, ends_with := Some ''00''\<rparr>)
        example_deriver salt_start
     = (Inr (Found address_hit 1 salt_next), [salt_start, salt_next])"
proof -
  let ?lead = "default_args\<lparr>leading_zeros := Some 1, starts_with := Some ''00''\<rparr>"
  let ?trail = "default_args\<lparr>trailing_zeros := Some 1, ends_with := Some ''00''\<rparr>"
  have "exclusive_pair_error ?lead
        = Some (UsageError ''Cannot use both `--leading-zeros` and `--starts-with` together.'')"
    by (simp add: exclusive_pair_error_def truthy_int_def truthy_str_def)
  moreover have "exclusive_pair_error ?trail
        = Some (UsageError ''Cannot use both `--trailing-zeros` and `--ends-with` together.'')"
    by (simp add: exclusive_pair_error_def truthy_int_def truthy_str_def)
  moreover have "mine ?lead example_deriver salt_start
        = (Inr (Found address_hit 1 salt_next), [salt_start, salt_next])"
    by (simp add: mine_def build_leading_and_starts mine_loop.simps example_deriver_def
        salts_differ leading_and_starts_conditions canonical_miss salt_of_miss
        del: conditions_met.simps)
  moreover have "mine ?trail example_deriver salt_start
        = (Inr (Found address_hit 1 salt_next), [salt_start, salt_next])"
    by (simp add: mine_def build_trailing_and_ends mine_loop.simps example_deriver_def
        salts_differ trailing_and_ends_conditions canonical_miss salt_of_miss
        del: conditions_met.simps)
  ultimately show ?thesis
    using build_leading_and_starts by simp
qed

text \<open>
  C3. The claim does not hold of the code: without \<open>--case-sensitive\<close> the closures
  lower-case the address but compare it with the pattern as typed, so a pattern with an
  upper-case hex digit matches no address, although validation admits it. The address
  below starts with \<open>00aB\<close> and ends with \<open>cD00\<close>.
\<close>

theorem uppercase_pattern_never_matches:
  "starts_with_pattern (default_args\<lparr>starts_with := Some ''00ab''\<rparr>) (Some 4) address_hit
     = Inr True
   \<and> starts_with_pattern (default_args\<lparr>starts_with := Some ''00AB''\<rparr>) (Some 4) address_hit
     = Inr False
   \<and> ends_with_pattern (default_args\<lparr>ends_with := Some ''cd00''\<rparr>) (Some 4) address_hit
     = Inr True
   \<and> ends_with_pattern (default_args\<lparr>ends_with := Some ''CD00''\<rparr>) (Some 4) address_hit
     = Inr False
   \<and> mine (default_args\<lparr>starts_with := Some ''00ab'', max_iterations := 1\<rparr>)
        example_deriver salt_start
     = (Inr (Found address_hit 1 salt_next), [salt_start, salt_next])
   \<and> mine (default_args\<lparr>starts_with := Some ''00AB'', max_iterations := 1\<rparr>)
        example_deriver salt_start
     = (Inl (UsageError ''Could not find solution in 1 iterations.''), [salt_start, salt_next])"
proof -
  have closures:
    "starts_with_pattern (default_args\<lparr>starts_with := Some ''00ab''\<rparr>) (Some 4) address_hit
       = Inr True
     \<and> starts_with_pattern (default_args\<lparr>starts_with := Some ''00AB''\<rparr>) (Some 4) address_hit
       = Inr False
     \<and> ends_with_pattern (default_args\<lparr>ends_with := Some ''cd00''\<rparr>) (Some 4) address_hit
       = Inr True
     \<and> ends_with_pattern (default_args\<lparr>ends_with := Some ''CD00''\<rparr>) (Some 4) address_hit
       = Inr False"
    by (simp add: starts_with_pattern_def ends_with_pattern_def slice_upto_def slice_from_def
        address_hit_def lower_def lower_char_def upper_to_lower_def)
  have lower_run:
    "mine (default_args\<lparr>starts_with := Some ''00ab'', max_iterations := 1\<rparr>)
        example_deriver salt_start
     = (Inr (Found address_hit 1 salt_next), [salt_start, salt_next])"
    by (simp add: mine_def build_starts_with_four hex_alphabet_def mine_loop.simps
        example_deriver_def salts_differ starts_with_lower_pattern canonical_miss salt_of_miss)
  have message: "exhausted_message 1 = ''Could not find solution in 1 iterations.''"
    by (simp add: exhausted_message_def str_int_def)
  have upper_run:
    "mine (default_args\<lparr>starts_with := Some ''00AB'', max_iterations := 1\<rparr>)
        example_deriver salt_start
     = (Inl (UsageError ''Could not find solution in 1 iterations.''), [salt_start, salt_next])"
    by (simp add: mine_def build_starts_with_four hex_alphabet_def mine_loop.simps
        example_deriver_def salts_differ starts_with_upper_pattern canonical_miss salt_of_miss
        message)
  from closures lower_run upper_run show ?thesis
    by simp
qed

end
